theory Spec2Isabelle
  imports Complex_Main
begin

section \<open>Data model\<close>

text \<open>
  The translation script \<^verbatim>\<open>nmt_transformer_infer_ensemble.py\<close> works on tensors of token
  ids. A two-dimensional id tensor is a list of rows. The cells are Python integers in the
  model; the script stores them for a moment in a float64 array (\<^verbatim>\<open>np.ones(...) * pad_id\<close>)
  and converts back to int64, which is exact for every id of magnitude below \<open>2^53\<close>, far
  above any vocabulary. The source mask is a float tensor holding only 1.0 and 0.0 (the result
  of an elementwise comparison); it is a matrix of booleans here.
\<close>

type_synonym tensor = "int list list"

type_synonym mask = "bool list list"

text \<open>The exceptions that the modelled code can raise.\<close>

datatype error = ValueError | IndexError | FileNotFoundError | ConfigurationError

text \<open>
  The tokenizer and the text processors are collaborators of the script: it only reads
  their attributes and calls their methods. They are records whose methods are functions.
\<close>

record tokenizer =
  vocab_size :: int
  unk_id :: int
  bos_id :: int
  eos_id :: int
  pad_id :: int
  text_to_ids :: "string \<Rightarrow> int list"
  ids_to_text :: "int list \<Rightarrow> string"

text \<open>\<open>normalize\<close> is a constant of HOL, so the method carries a suffix.\<close>

record src_processor =
  normalize_txt :: "string \<Rightarrow> string"
  tokenize :: "string \<Rightarrow> string"

record tgt_processor =
  detokenize :: "string list \<Rightarrow> string"

text \<open>
  The attributes of \<^verbatim>\<open>MTEncDecModel\<close> that the script touches. A processor that is
  \<^verbatim>\<open>None\<close> in Python is \<open>None\<close> here.
\<close>

record model =
  encoder_tokenizer :: tokenizer
  decoder_tokenizer :: tokenizer
  source_processor :: "src_processor option"
  target_processor :: "tgt_processor option"

section \<open>String helpers of the Python library\<close>

text \<open>
  \<^verbatim>\<open>s.split(' ')\<close> with an explicit separator: every occurrence of the separator ends
  a field, empty fields are kept, and the empty string gives one empty field.
\<close>

fun split_sep :: "char \<Rightarrow> string \<Rightarrow> string list" where
  "split_sep sep [] = [[]]"
| "split_sep sep (c # cs) =
     (if c = sep then [] # split_sep sep cs
      else (case split_sep sep cs of
              [] \<Rightarrow> [[c]]
            | w # ws \<Rightarrow> (c # w) # ws))"

text \<open>
  \<^verbatim>\<open>line.strip()\<close> removes leading and trailing whitespace. Characters are bytes here, so
  the whitespace set is the ASCII one of Python's \<^verbatim>\<open>str.isspace\<close>. Python also strips
  whitespace outside ASCII (such as U+00A0, U+0085 and U+3000) from decoded text; lines that
  begin or end with such characters are outside this model. The properties proved of the
  script hold for whatever \<open>strip\<close> removes: they use it only as a function from lines to
  sentences.
\<close>

definition is_space :: "char \<Rightarrow> bool" where
  "is_space c =
     (c \<in> set [CHR '' '', CHR 0x09, CHR 0x0A, CHR 0x0B, CHR 0x0C, CHR 0x0D,
                CHR 0x1C, CHR 0x1D, CHR 0x1E, CHR 0x1F])"

definition strip :: "string \<Rightarrow> string" where
  "strip s = rev (dropWhile is_space (rev (dropWhile is_space s)))"

section \<open>Output post-processing\<close>

text \<open>
  \<^verbatim>\<open>filter_predicted_ids\<close> (lines 35 to 37):
  \<^verbatim>\<open>ids[ids >= tokenizer.vocab_size] = tokenizer.unk_id; return ids\<close>.
  The masked assignment writes into the tensor it is given, and the function returns that same
  tensor object. The value below is therefore both the result of the call and the content of
  the caller's tensor after the call.
\<close>

definition filter_predicted_ids :: "tokenizer \<Rightarrow> tensor \<Rightarrow> tensor" where
  "filter_predicted_ids tokenizer ids =
     map (map (\<lambda>x. if x \<ge> vocab_size tokenizer then unk_id tokenizer else x)) ids"

text \<open>
  \<^verbatim>\<open>nmt_postprocess\<close> (lines 40 to 46). The first component of the result is the list of
  translations the function returns. The second component is the content of the argument
  tensor \<^verbatim>\<open>beam_results\<close> when the call returns: the local name is rebound to the tensor
  that \<^verbatim>\<open>filter_predicted_ids\<close> returns, which is the argument itself, updated in place;
  \<^verbatim>\<open>.cpu().numpy()\<close>, \<^verbatim>\<open>ids_to_text\<close> and \<^verbatim>\<open>detokenize\<close> only read.
\<close>

definition nmt_postprocess :: "tensor \<Rightarrow> model \<Rightarrow> string list \<times> tensor" where
  "nmt_postprocess beam_results model =
     (let beam_results' = filter_predicted_ids (decoder_tokenizer model) beam_results;
          translations = map (ids_to_text (decoder_tokenizer model)) beam_results';
          translations' =
            (case target_processor model of
               None \<Rightarrow> translations
             | Some p \<Rightarrow> map (\<lambda>translation. detokenize p (split_sep CHR '' '' translation))
                          translations)
      in (translations', beam_results'))"

section \<open>Input preparation\<close>

text \<open>
  The body of the first loop of \<^verbatim>\<open>input_preprocess\<close>, in two parts. Lines 52 to 55:
  optional normalisation and tokenisation, then the conversion to ids.
\<close>

definition sentence_ids :: "model \<Rightarrow> string \<Rightarrow> int list" where
  "sentence_ids model txt =
     (let txt' = (case source_processor model of
                    None \<Rightarrow> txt
                  | Some p \<Rightarrow> tokenize p (normalize_txt p txt))
      in text_to_ids (encoder_tokenizer model) txt')"

text \<open>Line 56: the bos and eos markers around the ids.\<close>

definition wrap_ids :: "model \<Rightarrow> string \<Rightarrow> int list" where
  "wrap_ids model txt =
     [bos_id (encoder_tokenizer model)] @ sentence_ids model txt @ [eos_id (encoder_tokenizer model)]"

text \<open>Python's \<^verbatim>\<open>max\<close> over an iterable: it raises \<^verbatim>\<open>ValueError\<close> when there is nothing to compare.\<close>

definition py_max :: "nat list \<Rightarrow> error + nat" where
  "py_max xs = (case xs of [] \<Rightarrow> Inl ValueError | x # rest \<Rightarrow> Inr (fold max rest x))"

text \<open>
  \<^verbatim>\<open>src_ids_[i][: len(txt)] = txt\<close> (line 61): the slice holds the first
  \<open>min (len txt) (len row)\<close> cells of row \<open>i\<close>. NumPy copies \<open>txt\<close> into it when the
  lengths agree, broadcasts a one-element \<open>txt\<close> into a shorter (then empty) slice, and
  raises \<^verbatim>\<open>ValueError\<close> for any other shape; a row index out of range raises
  \<^verbatim>\<open>IndexError\<close>.
\<close>

definition assign_prefix :: "tensor \<Rightarrow> nat \<Rightarrow> int list \<Rightarrow> error + tensor" where
  "assign_prefix a i txt =
     (if i < length a then
        (if length txt \<le> length (a ! i) then Inr (a[i := txt @ drop (length txt) (a ! i)])
         else if length txt = 1 then Inr a
         else Inl ValueError)
      else Inl IndexError)"

text \<open>The second loop (lines 60 and 61), over \<^verbatim>\<open>enumerate(inputs)\<close>.\<close>

fun fill_rows :: "(nat \<times> int list) list \<Rightarrow> tensor \<Rightarrow> error + tensor" where
  "fill_rows [] a = Inr a"
| "fill_rows ((i, txt) # rest) a =
     (case assign_prefix a i txt of
        Inl e \<Rightarrow> Inl e
      | Inr a' \<Rightarrow> fill_rows rest a')"

text \<open>
  \<^verbatim>\<open>input_preprocess\<close> (lines 49 to 65). The result is the pair \<^verbatim>\<open>(src, src_mask)\<close>.
\<close>

definition input_preprocess :: "string list \<Rightarrow> model \<Rightarrow> error + tensor \<times> mask" where
  "input_preprocess text model =
     (let inputs = map (wrap_ids model) text in
      case py_max (map length inputs) of
        Inl e \<Rightarrow> Inl e
      | Inr max_len \<Rightarrow>
          (let pad = pad_id (encoder_tokenizer model);
               ones = replicate (length inputs) (replicate max_len pad)
           in case fill_rows (enumerate 0 inputs) ones of
                Inl e \<Rightarrow> Inl e
              | Inr src_ids \<Rightarrow> Inr (src_ids, map (map (\<lambda>x. x \<noteq> pad)) src_ids)))"

section \<open>The ensemble generator\<close>

text \<open>
  The keyword arguments that \<^verbatim>\<open>main\<close> passes to the generator (lines 94 to 106), apart from
  the networks of the ensemble members. The length penalty is a float that the script only
  passes on; no computation is done with it here.
\<close>

record generator =
  gen_max_sequence_length :: int
  gen_beam_size :: int
  gen_bos :: int
  gen_pad :: int
  gen_eos :: int
  gen_len_pen :: real
  gen_max_delta_length :: int

text \<open>
  Modelled from the spec: the constructor of \<^verbatim>\<open>EnsembleBeamSearchSequenceGenerator\<close>. The class
  lives in the module \<^verbatim>\<open>transformer_generators\<close>, which is not part of the program text modelled here.
  The specification gives the configuration as \<open>beam_size: int > 0\<close> and
  \<open>max_sequence_length: int > 0\<close>, and says that configuration errors (invalid beam size,
  non-positive maximum length) are rejected eagerly, before decoding starts.
\<close>

definition EnsembleBeamSearchSequenceGenerator :: "generator \<Rightarrow> error + generator" where
  "EnsembleBeamSearchSequenceGenerator cfg =
     (if gen_beam_size cfg \<le> 0 \<or> gen_max_sequence_length cfg \<le> 0 then Inl ConfigurationError
      else Inr cfg)"

text \<open>
  Calling the generator on \<^verbatim>\<open>(src_ids, src_mask)\<close> runs the beam search over the networks of
  the ensemble. That code is not part of the program text modelled here either, and it is a parameter \<open>forward\<close> of type
  \<open>generator \<Rightarrow> tensor \<Rightarrow> mask \<Rightarrow> tensor\<close> throughout: a function of the configuration and
  the prepared batch, which closes over the networks.
\<close>

section \<open>The command line script\<close>

text \<open>The parsed arguments (lines 69 to 82); \<^verbatim>\<open>--models\<close> is represented by the restored models.\<close>

record args =
  srctext :: string
  tgtout :: string
  batch_size :: int
  beam_size :: int
  len_pen :: real
  max_delta_length :: int

text \<open>
  What \<^verbatim>\<open>print\<close> receives in the loop: a length (lines 120 and 121) or a list of strings
  (lines 122 and 123).
\<close>

datatype printed = PInt nat | PList "string list"

text \<open>
  The world around the script. A file is the list of lines that iterating over it yields
  (each with its line terminator, when it has one); for a file the script writes, it is the
  list of strings passed to \<^verbatim>\<open>write\<close>. \<open>stdout\<close> holds what was printed and \<open>logged\<close>
  the messages given to \<^verbatim>\<open>logging.info\<close>.
\<close>

record world =
  files :: "string \<Rightarrow> string list option"
  stdout :: "printed list"
  logged :: "string list"

text \<open>
  Lines 114 to 118, repeated as lines 130 to 134: prepare the batch, run the generator,
  post-process. Moving a tensor to the device of the model does not change its content.
  The tensor that post-processing updates in place is not used again.
\<close>

definition translate_batch ::
  "(tensor \<Rightarrow> mask \<Rightarrow> tensor) \<Rightarrow> model \<Rightarrow> string list \<Rightarrow> error + string list" where
  "translate_batch ensemble_generator model0 src_text =
     (case input_preprocess src_text model0 of
        Inl e \<Rightarrow> Inl e
      | Inr (src_ids, src_mask) \<Rightarrow>
          (let beam_results = ensemble_generator src_ids src_mask;
               res = fst (nmt_postprocess beam_results model0)
           in Inr res))"

text \<open>
  The variables of the reading loop: the pending batch, the translations so far, what the
  loop has printed so far, and the line counter.
\<close>

record loop_state =
  pending :: "string list"
  tgt_text :: "string list"
  prints :: "printed list"
  count :: nat

text \<open>
  One iteration of the loop over the lines of the input file (lines 112 to 126);
  \<open>pending\<close> is the variable \<^verbatim>\<open>src_text\<close>.
\<close>

definition loop_body ::
  "args \<Rightarrow> (tensor \<Rightarrow> mask \<Rightarrow> tensor) \<Rightarrow> model \<Rightarrow> string \<Rightarrow> loop_state \<Rightarrow> error + loop_state" where
  "loop_body a ensemble_generator model0 line s =
     (let src_text = pending s @ [strip line] in
      if int (length src_text) = batch_size a then
        (case translate_batch ensemble_generator model0 src_text of
           Inl e \<Rightarrow> Inl e
         | Inr res \<Rightarrow>
             Inr \<lparr>pending = [],
                  tgt_text = tgt_text s @ res,
                  prints = prints s @
                    (if length res \<noteq> length src_text
                     then [PInt (length res), PInt (length src_text), PList res, PList src_text]
                     else []),
                  count = count s + 1\<rparr>)
      else Inr (s\<lparr>pending := src_text, count := count s + 1\<rparr>))"

fun loop ::
  "args \<Rightarrow> (tensor \<Rightarrow> mask \<Rightarrow> tensor) \<Rightarrow> model \<Rightarrow> string list \<Rightarrow> loop_state \<Rightarrow> error + loop_state" where
  "loop a ensemble_generator model0 [] s = Inr s"
| "loop a ensemble_generator model0 (line # lines) s =
     (case loop_body a ensemble_generator model0 line s of
        Inl e \<Rightarrow> Inl e
      | Inr s' \<Rightarrow> loop a ensemble_generator model0 lines s')"

text \<open>The last, partial batch (lines 129 to 135).\<close>

definition last_batch ::
  "(tensor \<Rightarrow> mask \<Rightarrow> tensor) \<Rightarrow> model \<Rightarrow> loop_state \<Rightarrow> error + loop_state" where
  "last_batch ensemble_generator model0 s =
     (if length (pending s) > 0 then
        (case translate_batch ensemble_generator model0 (pending s) of
           Inl e \<Rightarrow> Inl e
         | Inr res \<Rightarrow> Inr (s\<lparr>tgt_text := tgt_text s @ res\<rparr>))
      else Inr s)"

text \<open>
  The configuration that \<^verbatim>\<open>main\<close> hands to the constructor of the generator (lines 99
  to 105): the maximum sequence length is the literal 512, the beam size, length penalty and
  maximum length difference come from the command line, and the three special ids from the
  target tokenizer of the first model.
\<close>

definition generator_config :: "args \<Rightarrow> model \<Rightarrow> generator" where
  "generator_config a model0 =
     \<lparr>gen_max_sequence_length = 512,
      gen_beam_size = beam_size a,
      gen_bos = bos_id (decoder_tokenizer model0),
      gen_pad = pad_id (decoder_tokenizer model0),
      gen_eos = eos_id (decoder_tokenizer model0),
      gen_len_pen = len_pen a,
      gen_max_delta_length = max_delta_length a\<rparr>"

text \<open>
  \<^verbatim>\<open>main\<close> (lines 68 to 139). The models are the ones restored from \<^verbatim>\<open>--models\<close>; the
  first one supplies the tokenizers and processors. Splitting the argument at commas gives at
  least one path, so the list is never empty in a run of the script; \<^verbatim>\<open>models[0]\<close> on an
  empty list would raise \<^verbatim>\<open>IndexError\<close>. The generator is built before the input
  file is opened. Opening a missing input file raises. The output file is opened for
  writing, which replaces its content, after the input file has been read to its end.
\<close>

definition main ::
  "args \<Rightarrow> model list \<Rightarrow> (generator \<Rightarrow> tensor \<Rightarrow> mask \<Rightarrow> tensor) \<Rightarrow> world \<Rightarrow> error + world" where
  "main a models forward w =
     (case models of
        [] \<Rightarrow> Inl IndexError
      | model0 # _ \<Rightarrow>
          (case EnsembleBeamSearchSequenceGenerator (generator_config a model0) of
             Inl e \<Rightarrow> Inl e
           | Inr g \<Rightarrow>
               (case files w (srctext a) of
                  None \<Rightarrow> Inl FileNotFoundError
                | Some src_f \<Rightarrow>
                    (case loop a (forward g) model0 src_f
                            \<lparr>pending = [], tgt_text = [], prints = [], count = 0\<rparr> of
                       Inl e \<Rightarrow> Inl e
                     | Inr s \<Rightarrow>
                         (case last_batch (forward g) model0 s of
                            Inl e \<Rightarrow> Inl e
                          | Inr s' \<Rightarrow>
                              Inr \<lparr>files = (files w)(tgtout a \<mapsto>
                                              map (\<lambda>line. line @ [CHR 0x0A]) (tgt_text s')),
                                   stdout = stdout w @ prints s',
                                   logged = logged w @ [''Translating: '' @ srctext a]\<rparr>)))))"

section \<open>Batches\<close>

text \<open>
  The reading loop cuts the stripped lines into batches of \<open>n\<close> sentences; what is left
  at the end of the file is the last batch. A batch size that no list length can equal
  (zero or negative) is \<open>n = 0\<close>: then no batch is ever full.
\<close>

function full_batches :: "nat \<Rightarrow> 'a list \<Rightarrow> 'a list list" where
  "full_batches n xs =
     (if n = 0 \<or> length xs < n then [] else take n xs # full_batches n (drop n xs))"
  by pat_completeness auto
termination
  by (relation "measure (\<lambda>(n, xs). length xs)") auto

function remainder :: "nat \<Rightarrow> 'a list \<Rightarrow> 'a list" where
  "remainder n xs = (if n = 0 \<or> length xs < n then xs else remainder n (drop n xs))"
  by pat_completeness auto
termination
  by (relation "measure (\<lambda>(n, xs). length xs)") auto

text \<open>The batch in which sentence \<open>i\<close> is translated, and its position there.\<close>

definition batch_of :: "nat \<Rightarrow> 'a list \<Rightarrow> nat \<Rightarrow> 'a list" where
  "batch_of n xs i = (if n = 0 then xs else take n (drop (i div n * n) xs))"

definition position_in_batch :: "nat \<Rightarrow> nat \<Rightarrow> nat" where
  "position_in_batch n i = (if n = 0 then i else i mod n)"

text \<open>The translations of a batch, as a total function (the empty list where preparation raises).\<close>

definition translated ::
  "(tensor \<Rightarrow> mask \<Rightarrow> tensor) \<Rightarrow> model \<Rightarrow> string list \<Rightarrow> string list" where
  "translated ensemble_generator model0 src_text =
     (case translate_batch ensemble_generator model0 src_text of Inl e \<Rightarrow> [] | Inr res \<Rightarrow> res)"

text \<open>What the loop prints for a full batch (lines 119 to 123).\<close>

definition report :: "string list \<Rightarrow> string list \<Rightarrow> printed list" where
  "report res src_text =
     (if length res \<noteq> length src_text
      then [PInt (length res), PInt (length src_text), PList res, PList src_text]
      else [])"

text \<open>
  All the translations of a file, batch after batch: the full batches in order, then the
  last, partial batch when there is one.
\<close>

definition run_batches :: "('a list \<Rightarrow> 'b list) \<Rightarrow> nat \<Rightarrow> 'a list \<Rightarrow> 'b list" where
  "run_batches T n xs =
     concat (map T (full_batches n xs)) @ (if remainder n xs = [] then [] else T (remainder n xs))"

section \<open>Example collaborators\<close>

text \<open>
  A small tokenizer in the layout of a byte-pair vocabulary: pad 0, unk 1, bos 2, eos 3, and
  two word pieces. Every character other than \<open>a\<close> and \<open>b\<close> is unknown.
\<close>

definition toy_tokenizer :: tokenizer where
  "toy_tokenizer =
     \<lparr>vocab_size = 6, unk_id = 1, bos_id = 2, eos_id = 3, pad_id = 0,
      text_to_ids = map (\<lambda>c. if c = CHR ''a'' then 4 else if c = CHR ''b'' then 5 else 1),
      ids_to_text = map (\<lambda>i. if i = 4 then CHR ''a'' else if i = 5 then CHR ''b'' else CHR ''?'')\<rparr>"

definition toy_model :: model where
  "toy_model =
     \<lparr>encoder_tokenizer = toy_tokenizer, decoder_tokenizer = toy_tokenizer,
      source_processor = None, target_processor = None\<rparr>"

text \<open>
  A tokenizer whose pad id is also its unknown-token id: the same vocabulary, with the pad
  token sharing entry 1.
\<close>

definition unk_pad_tokenizer :: tokenizer where
  "unk_pad_tokenizer = toy_tokenizer\<lparr>pad_id := 1\<rparr>"

definition unk_pad_model :: model where
  "unk_pad_model =
     \<lparr>encoder_tokenizer = unk_pad_tokenizer, decoder_tokenizer = unk_pad_tokenizer,
      source_processor = None, target_processor = None\<rparr>"

text \<open>
  Two stand-ins for the beam search. The first returns the prepared id matrix itself, one
  output row per input row. The second loses the first row of every batch, as a fault in the
  bookkeeping of the beams would.
\<close>

definition echo_forward :: "generator \<Rightarrow> tensor \<Rightarrow> mask \<Rightarrow> tensor" where
  "echo_forward g src src_mask = src"

definition dropping_forward :: "generator \<Rightarrow> tensor \<Rightarrow> mask \<Rightarrow> tensor" where
  "dropping_forward g src src_mask = tl src"

text \<open>
  A command line with a batch size of two, and two worlds with the same three-line input
  file: a fresh one, and one where an earlier run has left an output file and some output.
\<close>

definition toy_args :: args where
  "toy_args =
     \<lparr>srctext = ''in.txt'', tgtout = ''out.txt'', batch_size = 2, beam_size = 4,
      len_pen = 6 / 10, max_delta_length = 5\<rparr>"

definition toy_world :: world where
  "toy_world =
     \<lparr>files = [''in.txt'' \<mapsto> [''ab'' @ [CHR 0x0A], '' b'' @ [CHR 0x0A], ''a'']],
      stdout = [], logged = []\<rparr>"

definition used_world :: world where
  "used_world =
     \<lparr>files = [''in.txt'' \<mapsto> [''ab'' @ [CHR 0x0A], '' b'' @ [CHR 0x0A], ''a''],
               ''out.txt'' \<mapsto> [''old'' @ [CHR 0x0A]]],
      stdout = [PInt 7], logged = [''earlier'']\<rparr>"

text \<open>The fresh world after a run with the first stand-in.\<close>

definition after_first_run :: world where
  "after_first_run =
     \<lparr>files = [''in.txt'' \<mapsto> [''ab'' @ [CHR 0x0A], '' b'' @ [CHR 0x0A], ''a''],
               ''out.txt'' \<mapsto> [''?ab?'' @ [CHR 0x0A], ''?b??'' @ [CHR 0x0A], ''?a?'' @ [CHR 0x0A]]],
      stdout = [], logged = [''Translating: in.txt'']\<rparr>"

section \<open>Properties of input preparation\<close>

lemma py_max_nonempty: "xs \<noteq> [] \<Longrightarrow> py_max xs = Inr (Max (set xs))"
  by (cases xs) (simp_all add: py_max_def Max.set_eq_fold [symmetric] del: set_simps)

lemma fill_rows_gen:
  "\<forall>r \<in> set xs. length r \<le> n \<Longrightarrow>
   fill_rows (enumerate (length pre) xs) (pre @ replicate (length xs) (replicate n pad))
     = Inr (pre @ map (\<lambda>r. r @ replicate (n - length r) pad) xs)"
proof (induction xs arbitrary: pre)
  case Nil
  then show ?case by simp
next
  case (Cons r xs)
  let ?row = "r @ replicate (n - length r) pad"
  have le: "length r \<le> n" using Cons.prems by simp
  have step: "assign_prefix (pre @ replicate (length (r # xs)) (replicate n pad)) (length pre) r
      = Inr ((pre @ [?row]) @ replicate (length xs) (replicate n pad))"
    using le by (simp add: assign_prefix_def nth_append list_update_append)
  have "fill_rows (enumerate (length (pre @ [?row])) xs)
          ((pre @ [?row]) @ replicate (length xs) (replicate n pad))
        = Inr ((pre @ [?row]) @ map (\<lambda>r. r @ replicate (n - length r) pad) xs)"
    using Cons.prems by (intro Cons.IH) simp
  then show ?case using step by simp
qed

lemma fill_rows_ones:
  assumes "\<forall>r \<in> set xs. length r \<le> n"
  shows "fill_rows (enumerate 0 xs) (replicate (length xs) (replicate n pad))
           = Inr (map (\<lambda>r. r @ replicate (n - length r) pad) xs)"
  using fill_rows_gen [OF assms, of "[]" pad] by simp

lemma input_preprocess_Nil: "input_preprocess [] model = Inl ValueError"
  by (simp add: input_preprocess_def py_max_def)

text \<open>The closed form of input preparation on a batch that is not empty.\<close>

lemma input_preprocess_nonempty:
  assumes "text \<noteq> []"
  shows "input_preprocess text model =
     (let n = Max (set (map (\<lambda>t. length (wrap_ids model t)) text));
          pad = pad_id (encoder_tokenizer model);
          src = map (\<lambda>t. wrap_ids model t @ replicate (n - length (wrap_ids model t)) pad) text
      in Inr (src, map (map (\<lambda>x. x \<noteq> pad)) src))"
proof -
  let ?inputs = "map (wrap_ids model) text"
  let ?n = "Max (set (map length ?inputs))"
  have ne: "map length ?inputs \<noteq> []" using assms by simp
  have mx: "py_max (map length ?inputs) = Inr ?n" by (rule py_max_nonempty [OF ne])
  have le: "\<forall>r \<in> set ?inputs. length r \<le> ?n" by (auto intro!: Max_ge)
  have fr: "fill_rows (enumerate 0 ?inputs) (replicate (length ?inputs) (replicate ?n pad))
              = Inr (map (\<lambda>r. r @ replicate (?n - length r) pad) ?inputs)" for pad
    by (rule fill_rows_ones [OF le])
  show ?thesis
    using mx fr by (simp add: input_preprocess_def Let_def comp_def)
qed

lemma batch_max_bounds:
  assumes "text \<noteq> []"
  shows "\<forall>t \<in> set text. length (wrap_ids model t)
           \<le> Max (set (map (\<lambda>t. length (wrap_ids model t)) text))"
    and "\<exists>t \<in> set text. length (wrap_ids model t)
           = Max (set (map (\<lambda>t. length (wrap_ids model t)) text))"
proof -
  let ?S = "set (map (\<lambda>t. length (wrap_ids model t)) text)"
  have fin: "finite ?S" and ne: "?S \<noteq> {}" using assms by simp_all
  show "\<forall>t \<in> set text. length (wrap_ids model t) \<le> Max ?S"
    using fin by (auto intro!: Max_ge)
  have "Max ?S \<in> ?S" by (rule Max_in [OF fin ne])
  then show "\<exists>t \<in> set text. length (wrap_ids model t) = Max ?S"
    by auto
qed

lemma length_wrap_ids: "length (wrap_ids model t) = length (sentence_ids model t) + 2"
  by (simp add: wrap_ids_def)

text \<open>
  Claim C2. For every list of source sentences that is not empty, input preparation returns
  an id matrix with one row per sentence. Row \<open>i\<close> begins with the bos id, continues with
  the token ids of sentence \<open>i\<close>, then the eos id, and every remaining cell holds the pad id.
  All rows have the same length \<open>n\<close>, which is the largest wrapped length (token ids plus
  the two markers) among the sentences of this batch: no sentence of the batch is longer, and
  one sentence of the batch has exactly that length.
\<close>

theorem input_preprocess_rows:
  assumes "text \<noteq> []"
  shows "\<exists>src src_mask n.
      input_preprocess text model = Inr (src, src_mask) \<and>
      length src = length text \<and>
      (\<forall>t \<in> set text. length (sentence_ids model t) + 2 \<le> n) \<and>
      (\<exists>t \<in> set text. length (sentence_ids model t) + 2 = n) \<and>
      (\<forall>i < length text.
          length (src ! i) = n \<and>
          src ! i = bos_id (encoder_tokenizer model) # sentence_ids model (text ! i) @
                    eos_id (encoder_tokenizer model) #
                    replicate (n - (length (sentence_ids model (text ! i)) + 2))
                      (pad_id (encoder_tokenizer model)))"
proof -
  define n where "n = Max (set (map (\<lambda>t. length (wrap_ids model t)) text))"
  define pad where "pad = pad_id (encoder_tokenizer model)"
  define src where
    "src = map (\<lambda>t. wrap_ids model t @ replicate (n - length (wrap_ids model t)) pad) text"
  have res: "input_preprocess text model = Inr (src, map (map (\<lambda>x. x \<noteq> pad)) src)"
    using input_preprocess_nonempty [OF assms, of model]
    by (simp add: Let_def n_def pad_def src_def)
  have le: "\<forall>t \<in> set text. length (sentence_ids model t) + 2 \<le> n"
    using batch_max_bounds(1) [OF assms, of model] by (simp add: n_def length_wrap_ids)
  have ex: "\<exists>t \<in> set text. length (sentence_ids model t) + 2 = n"
    using batch_max_bounds(2) [OF assms, of model] by (simp add: n_def length_wrap_ids)
  have rows: "\<forall>i < length text.
          length (src ! i) = n \<and>
          src ! i = bos_id (encoder_tokenizer model) # sentence_ids model (text ! i) @
                    eos_id (encoder_tokenizer model) #
                    replicate (n - (length (sentence_ids model (text ! i)) + 2)) pad"
  proof (intro allI impI)
    fix i assume i: "i < length text"
    then have "text ! i \<in> set text" by simp
    then have "length (sentence_ids model (text ! i)) + 2 \<le> n" using le by blast
    then show "length (src ! i) = n \<and>
          src ! i = bos_id (encoder_tokenizer model) # sentence_ids model (text ! i) @
                    eos_id (encoder_tokenizer model) #
                    replicate (n - (length (sentence_ids model (text ! i)) + 2)) pad"
      using i by (simp add: src_def wrap_ids_def)
  qed
  have len: "length src = length text" by (simp add: src_def)
  show ?thesis
    using res len le ex rows unfolding pad_def by blast
qed

theorem input_preprocess_rows_witness:
  "[''ab'', '''', ''a''] \<noteq> [] \<and>
   input_preprocess [''ab'', '''', ''a''] toy_model =
     Inr ([[2, 4, 5, 3], [2, 3, 0, 0], [2, 4, 3, 0]],
          [[True, True, True, True], [True, True, False, False], [True, True, True, False]])"
  using input_preprocess_rows [of "[''ab'', '''', ''a'']" toy_model]
  by (simp add: input_preprocess_def wrap_ids_def sentence_ids_def py_max_def assign_prefix_def
      toy_model_def toy_tokenizer_def enumerate_eq_zip upt_rec)

text \<open>
  Claim C10. Input preparation raises when it is called with an empty list of sentences: the
  maximum of the wrapped lengths is taken over an empty collection, which is a
  \<^verbatim>\<open>ValueError\<close>. It never returns a matrix with zero rows, for an empty batch or any
  other.
\<close>

theorem input_preprocess_empty_raises:
  "input_preprocess [] model = Inl ValueError \<and>
   input_preprocess text model \<noteq> Inr ([], src_mask)"
proof (cases "text = []")
  case True
  then show ?thesis by (simp add: input_preprocess_Nil)
next
  case False
  then show ?thesis
    using input_preprocess_nonempty [OF False, of model]
    by (simp add: input_preprocess_Nil Let_def)
qed

section \<open>The source mask and the empty sentence\<close>

lemma count_true_mask_row:
  "length (filter (\<lambda>b. b) (map (\<lambda>x. x \<noteq> pad) r @ replicate k False))
     = length (filter (\<lambda>x. x \<noteq> pad) r)"
  by (simp add: filter_map comp_def)

lemma filter_all: "pad \<notin> set r \<Longrightarrow> filter (\<lambda>x. x \<noteq> pad) r = r"
  by (induction r) auto

text \<open>
  Claim C3, as the code has it. For every batch of sentences that is not empty, the source
  mask has one row per sentence, each of the common row length \<open>n\<close>, and it is true exactly
  where the id matrix differs from the pad id. So it is false at every padded position, and at
  a position of a real token (bos, token ids, eos) it is true exactly when that token's id is
  not the pad id. When no real token of sentence \<open>i\<close> has the pad id, row \<open>i\<close> is true
  exactly at the positions of the real tokens, and the number of true entries is the wrapped
  length of the sentence.
\<close>

theorem input_preprocess_mask:
  assumes "text \<noteq> []"
  shows "\<exists>src src_mask n.
      input_preprocess text model = Inr (src, src_mask) \<and>
      length src_mask = length text \<and>
      (\<forall>i < length text.
          length (src_mask ! i) = n \<and> length (wrap_ids model (text ! i)) \<le> n \<and>
          (\<forall>j < n. src_mask ! i ! j = (src ! i ! j \<noteq> pad_id (encoder_tokenizer model))) \<and>
          (\<forall>j < n. length (wrap_ids model (text ! i)) \<le> j \<longrightarrow> \<not> src_mask ! i ! j) \<and>
          (\<forall>j < length (wrap_ids model (text ! i)).
              src_mask ! i ! j = (wrap_ids model (text ! i) ! j \<noteq> pad_id (encoder_tokenizer model))) \<and>
          (pad_id (encoder_tokenizer model) \<notin> set (wrap_ids model (text ! i)) \<longrightarrow>
              (\<forall>j < n. src_mask ! i ! j = (j < length (wrap_ids model (text ! i)))) \<and>
              length (filter (\<lambda>b. b) (src_mask ! i)) = length (wrap_ids model (text ! i))))"
proof -
  define n where "n = Max (set (map (\<lambda>t. length (wrap_ids model t)) text))"
  define pad where "pad = pad_id (encoder_tokenizer model)"
  define src where
    "src = map (\<lambda>t. wrap_ids model t @ replicate (n - length (wrap_ids model t)) pad) text"
  define msk where "msk = map (map (\<lambda>x. x \<noteq> pad)) src"
  have res: "input_preprocess text model = Inr (src, msk)"
    using input_preprocess_nonempty [OF assms, of model]
    by (simp add: Let_def n_def pad_def src_def msk_def)
  have len: "length msk = length text" by (simp add: msk_def src_def)
  have rows: "\<forall>i < length text.
          length (msk ! i) = n \<and> length (wrap_ids model (text ! i)) \<le> n \<and>
          (\<forall>j < n. msk ! i ! j = (src ! i ! j \<noteq> pad)) \<and>
          (\<forall>j < n. length (wrap_ids model (text ! i)) \<le> j \<longrightarrow> \<not> msk ! i ! j) \<and>
          (\<forall>j < length (wrap_ids model (text ! i)).
              msk ! i ! j = (wrap_ids model (text ! i) ! j \<noteq> pad)) \<and>
          (pad \<notin> set (wrap_ids model (text ! i)) \<longrightarrow>
              (\<forall>j < n. msk ! i ! j = (j < length (wrap_ids model (text ! i)))) \<and>
              length (filter (\<lambda>b. b) (msk ! i)) = length (wrap_ids model (text ! i)))"
  proof (intro allI impI)
    fix i assume i: "i < length text"
    let ?r = "wrap_ids model (text ! i)"
    have "text ! i \<in> set text" using i by simp
    then have le: "length ?r \<le> n"
      using batch_max_bounds(1) [OF assms, of model] by (simp add: n_def)
    have srci: "src ! i = ?r @ replicate (n - length ?r) pad"
      using i by (simp add: src_def)
    have mski: "msk ! i = map (\<lambda>x. x \<noteq> pad) ?r @ replicate (n - length ?r) False"
      using i by (simp add: msk_def src_def)
    have a: "length (msk ! i) = n" using le by (simp add: mski)
    have b: "\<forall>j < n. msk ! i ! j = (src ! i ! j \<noteq> pad)"
      using le by (simp add: mski srci nth_append)
    have c: "\<forall>j < n. length ?r \<le> j \<longrightarrow> \<not> msk ! i ! j"
      by (simp add: mski nth_append)
    have d: "\<forall>j < length ?r. msk ! i ! j = (?r ! j \<noteq> pad)"
      by (simp add: mski nth_append)
    have e: "(\<forall>j < n. msk ! i ! j = (j < length ?r)) \<and>
             length (filter (\<lambda>b. b) (msk ! i)) = length ?r" if "pad \<notin> set ?r"
    proof
      show "\<forall>j < n. msk ! i ! j = (j < length ?r)"
        using that by (auto simp: mski nth_append)
      show "length (filter (\<lambda>b. b) (msk ! i)) = length ?r"
        unfolding mski count_true_mask_row using that by (simp add: filter_all)
    qed
    show "length (msk ! i) = n \<and> length ?r \<le> n \<and>
          (\<forall>j < n. msk ! i ! j = (src ! i ! j \<noteq> pad)) \<and>
          (\<forall>j < n. length ?r \<le> j \<longrightarrow> \<not> msk ! i ! j) \<and>
          (\<forall>j < length ?r. msk ! i ! j = (?r ! j \<noteq> pad)) \<and>
          (pad \<notin> set ?r \<longrightarrow>
              (\<forall>j < n. msk ! i ! j = (j < length ?r)) \<and>
              length (filter (\<lambda>b. b) (msk ! i)) = length ?r)"
      using a le b c d e by blast
  qed
  show ?thesis
    using res len rows unfolding pad_def by blast
qed

theorem input_preprocess_mask_witness:
  "[''ab'', '''', ''a''] \<noteq> [] \<and>
   pad_id (encoder_tokenizer toy_model) \<notin> set (wrap_ids toy_model '''') \<and>
   input_preprocess [''ab'', '''', ''a''] toy_model =
     Inr ([[2, 4, 5, 3], [2, 3, 0, 0], [2, 4, 3, 0]],
          [[True, True, True, True], [True, True, False, False], [True, True, True, False]]) \<and>
   length (filter (\<lambda>b. b) [True, True, False, False]) = length (wrap_ids toy_model '''')"
  using input_preprocess_mask [of "[''ab'', '''', ''a'']" toy_model]
  by (simp add: input_preprocess_def wrap_ids_def sentence_ids_def py_max_def assign_prefix_def
      toy_model_def toy_tokenizer_def enumerate_eq_zip upt_rec)

text \<open>
  Claim C3 as stated fails when a real token has the pad id. With a tokenizer whose pad id
  is its unknown-token id, in a batch of three sentences of differing lengths, the first
  sentence has four real tokens (bos, \<open>a\<close>, unknown, eos), but its mask row has three true
  entries: the unknown token is marked as padding.
\<close>

theorem mask_misses_pad_valued_token:
  "input_preprocess [''a?'', '''', ''aba''] unk_pad_model =
     Inr ([[2, 4, 1, 3, 1], [2, 3, 1, 1, 1], [2, 4, 5, 4, 3]],
          [[True, True, False, True, False], [True, True, False, False, False],
           [True, True, True, True, True]]) \<and>
   wrap_ids unk_pad_model ''a?'' = [2, 4, 1, 3] \<and>
   length (filter (\<lambda>b. b) [True, True, False, True, False]) \<noteq> length (wrap_ids unk_pad_model ''a?'')"
  by (simp add: input_preprocess_def wrap_ids_def sentence_ids_def py_max_def assign_prefix_def
      unk_pad_model_def unk_pad_tokenizer_def toy_tokenizer_def enumerate_eq_zip upt_rec)

text \<open>
  Claim C7, as the code has it. Take a sentence of the batch for which the tokenizer, after
  the optional normalisation and tokenisation, returns no ids; the empty sentence is the usual
  case. Input preparation wraps it into the two tokens bos and eos, and its row in the id
  matrix is these two tokens followed by pad ids up to the row length \<open>n\<close>. That length is
  the largest wrapped length among the sentences of this batch: no sentence of the batch is
  longer, and one sentence of the batch has exactly that length.
\<close>

theorem input_preprocess_empty_sentence:
  assumes "i < length text" and "sentence_ids model (text ! i) = []"
  shows "\<exists>src src_mask n.
      input_preprocess text model = Inr (src, src_mask) \<and>
      length src = length text \<and>
      (\<forall>t \<in> set text. length (sentence_ids model t) + 2 \<le> n) \<and>
      (\<exists>t \<in> set text. length (sentence_ids model t) + 2 = n) \<and>
      length (src ! i) = n \<and>
      src ! i = [bos_id (encoder_tokenizer model), eos_id (encoder_tokenizer model)] @
                replicate (n - 2) (pad_id (encoder_tokenizer model)) \<and>
      take 2 (src ! i) = wrap_ids model (text ! i) \<and>
      length (wrap_ids model (text ! i)) = 2"
proof -
  have ne: "text \<noteq> []" using assms(1) by auto
  define n where "n = Max (set (map (\<lambda>t. length (wrap_ids model t)) text))"
  define pad where "pad = pad_id (encoder_tokenizer model)"
  define src where
    "src = map (\<lambda>t. wrap_ids model t @ replicate (n - length (wrap_ids model t)) pad) text"
  have res: "input_preprocess text model = Inr (src, map (map (\<lambda>x. x \<noteq> pad)) src)"
    using input_preprocess_nonempty [OF ne, of model]
    by (simp add: Let_def n_def pad_def src_def)
  have len: "length src = length text" by (simp add: src_def)
  have le: "\<forall>t \<in> set text. length (sentence_ids model t) + 2 \<le> n"
    using batch_max_bounds(1) [OF ne, of model] by (simp add: n_def length_wrap_ids)
  have ex: "\<exists>t \<in> set text. length (sentence_ids model t) + 2 = n"
    using batch_max_bounds(2) [OF ne, of model] by (simp add: n_def length_wrap_ids)
  have w: "wrap_ids model (text ! i) =
             [bos_id (encoder_tokenizer model), eos_id (encoder_tokenizer model)]"
    by (simp add: wrap_ids_def assms(2))
  have "text ! i \<in> set text" using assms(1) by simp
  then have "length (sentence_ids model (text ! i)) + 2 \<le> n" using le by blast
  then have n2: "2 \<le> n" by (simp add: assms(2))
  have r: "src ! i = [bos_id (encoder_tokenizer model), eos_id (encoder_tokenizer model)] @
                replicate (n - 2) pad"
    using assms(1) by (simp add: src_def w)
  have l: "length (src ! i) = n" using n2 by (simp add: r)
  have t2: "take 2 (src ! i) = wrap_ids model (text ! i)" by (simp add: r w)
  have lw: "length (wrap_ids model (text ! i)) = 2" by (simp add: w)
  show ?thesis using res len le ex l r t2 lw unfolding pad_def by blast
qed

theorem input_preprocess_empty_sentence_witness:
  "1 < length [''ab'', '''', ''a''] \<and>
   sentence_ids toy_model ([''ab'', '''', ''a''] ! 1) = [] \<and>
   input_preprocess [''ab'', '''', ''a''] toy_model =
     Inr ([[2, 4, 5, 3], [2, 3, 0, 0], [2, 4, 3, 0]],
          [[True, True, True, True], [True, True, False, False], [True, True, True, False]])"
  using input_preprocess_empty_sentence [of 1 "[''ab'', '''', ''a'']" toy_model]
  by (simp add: input_preprocess_def wrap_ids_def sentence_ids_def py_max_def assign_prefix_def
      toy_model_def toy_tokenizer_def enumerate_eq_zip upt_rec)

text \<open>
  Claim C7 as stated speaks of a single-token sequence. The sequence for the empty sentence
  has two tokens, bos and eos.
\<close>

theorem empty_sentence_has_two_tokens:
  "input_preprocess [''''] toy_model = Inr ([[2, 3]], [[True, True]]) \<and>
   wrap_ids toy_model '''' = [2, 3] \<and> length (wrap_ids toy_model '''') \<noteq> 1"
  by (simp add: input_preprocess_def wrap_ids_def sentence_ids_def py_max_def assign_prefix_def
      toy_model_def toy_tokenizer_def enumerate_eq_zip upt_rec)

section \<open>Properties of output post-processing\<close>

lemma filter_predicted_ids_nth:
  "i < length ids \<Longrightarrow> j < length (ids ! i) \<Longrightarrow>
   filter_predicted_ids tok ids ! i ! j =
     (if vocab_size tok \<le> ids ! i ! j then unk_id tok else ids ! i ! j)"
  by (simp add: filter_predicted_ids_def)

lemma filter_predicted_ids_length:
  "length (filter_predicted_ids tok ids) = length ids"
  "i < length ids \<Longrightarrow> length (filter_predicted_ids tok ids ! i) = length (ids ! i)"
  by (simp_all add: filter_predicted_ids_def)

lemma filter_predicted_ids_range:
  "row \<in> set (filter_predicted_ids tok ids) \<Longrightarrow> x \<in> set row \<Longrightarrow>
   x < vocab_size tok \<or> x = unk_id tok"
  by (auto simp: filter_predicted_ids_def)

lemma filter_predicted_ids_ids_to_text:
  "filter_predicted_ids (tok\<lparr>ids_to_text := f\<rparr>) ids = filter_predicted_ids tok ids"
  by (simp add: filter_predicted_ids_def cong: if_cong)

lemma nmt_postprocess_snd:
  "snd (nmt_postprocess beam_results model) =
     filter_predicted_ids (decoder_tokenizer model) beam_results"
  by (simp add: nmt_postprocess_def Let_def)

lemma nmt_postprocess_fst:
  "fst (nmt_postprocess beam_results model) =
     map (\<lambda>row. case target_processor model of
                  None \<Rightarrow> ids_to_text (decoder_tokenizer model) row
                | Some p \<Rightarrow> detokenize p (split_sep CHR '' '' (ids_to_text (decoder_tokenizer model) row)))
         (filter_predicted_ids (decoder_tokenizer model) beam_results)"
  by (simp add: nmt_postprocess_def Let_def split: option.splits)

lemma length_nmt_postprocess:
  "length (fst (nmt_postprocess beam_results model)) = length beam_results"
  by (simp add: nmt_postprocess_fst filter_predicted_ids_length)

text \<open>
  Claim C1. For every output id tensor, post-processing replaces each id that is greater
  than or equal to the vocabulary size of the target tokenizer by the unknown-token id and
  leaves each id below the vocabulary size as it is; the shape is kept. The translations are
  computed from the clamped rows: they are the text conversion (and optional detokenization)
  of those rows, and they do not depend on what \<^verbatim>\<open>ids_to_text\<close> would return for any row
  holding an id that is neither below the vocabulary size nor the unknown-token id. The clamp
  has no failure case: post-processing returns a value for every input, and no exception of
  the model can come out of it.
\<close>

theorem nmt_postprocess_clamps:
  "(let tok = decoder_tokenizer model;
        texts = fst (nmt_postprocess beam_results model);
        ids' = snd (nmt_postprocess beam_results model)
    in length ids' = length beam_results \<and>
       (\<forall>i < length beam_results.
           length (ids' ! i) = length (beam_results ! i) \<and>
           (\<forall>j < length (beam_results ! i).
               (vocab_size tok \<le> beam_results ! i ! j \<longrightarrow> ids' ! i ! j = unk_id tok) \<and>
               (beam_results ! i ! j < vocab_size tok \<longrightarrow> ids' ! i ! j = beam_results ! i ! j))) \<and>
       texts = map (\<lambda>row. case target_processor model of
                            None \<Rightarrow> ids_to_text tok row
                          | Some p \<Rightarrow> detokenize p (split_sep CHR '' '' (ids_to_text tok row))) ids' \<and>
       (\<forall>f. (\<forall>row. (\<forall>x \<in> set row. x < vocab_size tok \<or> x = unk_id tok) \<longrightarrow>
                    f row = ids_to_text tok row) \<longrightarrow>
            fst (nmt_postprocess beam_results
                   (model\<lparr>decoder_tokenizer := tok\<lparr>ids_to_text := f\<rparr>\<rparr>)) = texts))"
proof -
  define tok where "tok = decoder_tokenizer model"
  define ids' where "ids' = filter_predicted_ids tok beam_results"
  have a: "length ids' = length beam_results"
    by (simp add: ids'_def filter_predicted_ids_length)
  have b: "\<forall>i < length beam_results.
           length (ids' ! i) = length (beam_results ! i) \<and>
           (\<forall>j < length (beam_results ! i).
               (vocab_size tok \<le> beam_results ! i ! j \<longrightarrow> ids' ! i ! j = unk_id tok) \<and>
               (beam_results ! i ! j < vocab_size tok \<longrightarrow> ids' ! i ! j = beam_results ! i ! j))"
    by (simp add: ids'_def filter_predicted_ids_length filter_predicted_ids_nth)
  have c: "fst (nmt_postprocess beam_results
                   (model\<lparr>decoder_tokenizer := tok\<lparr>ids_to_text := f\<rparr>\<rparr>))
           = fst (nmt_postprocess beam_results model)"
    if f: "\<forall>row. (\<forall>x \<in> set row. x < vocab_size tok \<or> x = unk_id tok) \<longrightarrow>
                    f row = ids_to_text tok row" for f
  proof -
    have eq: "f row = ids_to_text tok row" if "row \<in> set ids'" for row
      using f that filter_predicted_ids_range [of row tok beam_results]
      by (auto simp: ids'_def)
    have l: "fst (nmt_postprocess beam_results
                   (model\<lparr>decoder_tokenizer := tok\<lparr>ids_to_text := f\<rparr>\<rparr>))
             = map (\<lambda>row. case target_processor model of
                              None \<Rightarrow> f row
                            | Some p \<Rightarrow> detokenize p (split_sep CHR '' '' (f row))) ids'"
      by (simp add: nmt_postprocess_fst ids'_def filter_predicted_ids_ids_to_text
          split: option.splits)
    have r: "fst (nmt_postprocess beam_results model)
             = map (\<lambda>row. case target_processor model of
                              None \<Rightarrow> ids_to_text tok row
                            | Some p \<Rightarrow> detokenize p (split_sep CHR '' '' (ids_to_text tok row))) ids'"
      by (simp add: nmt_postprocess_fst ids'_def tok_def split: option.splits)
    show ?thesis
      unfolding l r using eq by (auto split: option.splits)
  qed
  show ?thesis
    unfolding Let_def nmt_postprocess_snd
    using a b c by (simp add: nmt_postprocess_fst tok_def ids'_def)
qed

theorem nmt_postprocess_clamps_witness:
  "0 < length [[4, 11, 5], [6, 3 :: int]] \<and> 1 < length ([[4, 11, 5], [6, 3 :: int]] ! 0) \<and>
   vocab_size (decoder_tokenizer toy_model) \<le> [[4, 11, 5], [6, 3]] ! 0 ! 1 \<and>
   [[4, 11, 5], [6, 3]] ! 0 ! 0 < vocab_size (decoder_tokenizer toy_model) \<and>
   nmt_postprocess [[4, 11, 5], [6, 3]] toy_model = ([''a?b'', ''??''], [[4, 1, 5], [1, 3]])"
  using nmt_postprocess_clamps [of toy_model "[[4, 11, 5], [6, 3]]"]
  by (simp add: nmt_postprocess_def filter_predicted_ids_def toy_model_def toy_tokenizer_def)

text \<open>
  Claim C6, as the code has it. Post-processing updates the id tensor it is given: when the
  call returns, the tensor holds the clamped ids. It is left as it was exactly when every id
  that is greater than or equal to the vocabulary size is already the unknown-token id (so,
  in particular, when every id is below the vocabulary size). Apart from that update the
  call is a function of its arguments: the translations are the text conversion, followed by
  the optional detokenization, of each clamped row, applied once per row.
\<close>

theorem nmt_postprocess_in_place:
  "snd (nmt_postprocess beam_results model) =
     filter_predicted_ids (decoder_tokenizer model) beam_results \<and>
   (snd (nmt_postprocess beam_results model) = beam_results \<longleftrightarrow>
      (\<forall>row \<in> set beam_results. \<forall>x \<in> set row.
          vocab_size (decoder_tokenizer model) \<le> x \<longrightarrow> x = unk_id (decoder_tokenizer model))) \<and>
   fst (nmt_postprocess beam_results model) =
     map (\<lambda>row. case target_processor model of
                  None \<Rightarrow> ids_to_text (decoder_tokenizer model) row
                | Some p \<Rightarrow>
                    detokenize p (split_sep CHR '' '' (ids_to_text (decoder_tokenizer model) row)))
         (filter_predicted_ids (decoder_tokenizer model) beam_results)"
proof -
  have "map (\<lambda>x. if vocab_size tok \<le> x then unk_id tok else x) row = row \<longleftrightarrow>
        (\<forall>x \<in> set row. vocab_size tok \<le> x \<longrightarrow> x = unk_id tok)" for tok and row :: "int list"
    by (induction row) auto
  then have "filter_predicted_ids tok ids = ids \<longleftrightarrow>
        (\<forall>row \<in> set ids. \<forall>x \<in> set row. vocab_size tok \<le> x \<longrightarrow> x = unk_id tok)" for tok ids
    unfolding filter_predicted_ids_def by (induction ids) auto
  then show ?thesis
    using nmt_postprocess_fst [of beam_results model] by (simp add: nmt_postprocess_snd)
qed

theorem nmt_postprocess_in_place_witness:
  "snd (nmt_postprocess [[4, 5], [3]] toy_model) = [[4, 5], [3]] \<and>
   snd (nmt_postprocess [[4, 1, 5]] toy_model) = [[4, 1, 5]]"
  using nmt_postprocess_in_place [of "[[4, 5], [3]]" toy_model]
  by (simp add: nmt_postprocess_def filter_predicted_ids_def toy_model_def toy_tokenizer_def)

text \<open>
  Claim C6 as stated fails: a tensor holding the id 11, beyond the vocabulary of size 6, is
  changed by the call.
\<close>

theorem nmt_postprocess_mutates_argument:
  "snd (nmt_postprocess [[4, 11, 5]] toy_model) = [[4, 1, 5]] \<and>
   snd (nmt_postprocess [[4, 11, 5]] toy_model) \<noteq> [[4, 11, 5]]"
  by (simp add: nmt_postprocess_def filter_predicted_ids_def toy_model_def toy_tokenizer_def)

section \<open>Properties of the command line script\<close>

lemma translate_batch_nonempty:
  assumes "b \<noteq> []"
  shows "translate_batch eg m b = Inr (translated eg m b)"
proof -
  obtain src msk where "input_preprocess b m = Inr (src, msk)"
    using input_preprocess_nonempty [OF assms, of m] by (simp add: Let_def)
  then show ?thesis
    by (simp add: translated_def translate_batch_def Let_def)
qed

lemma length_translated:
  assumes "\<forall>src msk. length (eg src msk) = length src" and "b \<noteq> []"
  shows "length (translated eg m b) = length b"
proof -
  have "\<exists>src msk. input_preprocess b m = Inr (src, msk) \<and> length src = length b"
    using input_preprocess_nonempty [OF assms(2), of m] by (simp add: Let_def)
  then show ?thesis
    using assms(1)
    by (auto simp: translated_def translate_batch_def Let_def length_nmt_postprocess)
qed

text \<open>The two recursions over batches are unfolded by hand.\<close>

declare full_batches.simps [simp del] remainder.simps [simp del]

lemma full_batches_short: "n = 0 \<or> length xs < n \<Longrightarrow> full_batches n xs = []"
  by (subst full_batches.simps) simp

lemma remainder_short: "n = 0 \<or> length xs < n \<Longrightarrow> remainder n xs = xs"
  by (subst remainder.simps) simp

lemma full_batches_append:
  "0 < n \<Longrightarrow> length b = n \<Longrightarrow> full_batches n (b @ ys) = b # full_batches n ys"
  by (subst full_batches.simps) simp

lemma remainder_append:
  "0 < n \<Longrightarrow> length b = n \<Longrightarrow> remainder n (b @ ys) = remainder n ys"
  by (subst remainder.simps) simp

text \<open>The reading loop, iteration by iteration, and then as a whole.\<close>

lemma loop_body_full:
  assumes "int (length (pending s @ [strip line])) = batch_size a"
  shows "loop_body a eg m line s =
     Inr \<lparr>pending = [],
          tgt_text = tgt_text s @ translated eg m (pending s @ [strip line]),
          prints = prints s @ report (translated eg m (pending s @ [strip line]))
                                (pending s @ [strip line]),
          count = count s + 1\<rparr>"
proof -
  have "translate_batch eg m (pending s @ [strip line])
          = Inr (translated eg m (pending s @ [strip line]))"
    by (rule translate_batch_nonempty) simp
  then show ?thesis
    using assms by (simp add: loop_body_def Let_def report_def)
qed

lemma loop_body_not_full:
  assumes "int (length (pending s @ [strip line])) \<noteq> batch_size a"
  shows "loop_body a eg m line s = Inr (s\<lparr>pending := pending s @ [strip line], count := count s + 1\<rparr>)"
  using assms by (simp add: loop_body_def Let_def)

lemma loop_batches:
  assumes "n = nat (batch_size a)" and "n = 0 \<or> length (pending s) < n"
  shows "loop a eg m ls s =
     Inr \<lparr>pending = remainder n (pending s @ map strip ls),
          tgt_text = tgt_text s @
            concat (map (translated eg m) (full_batches n (pending s @ map strip ls))),
          prints = prints s @
            concat (map (\<lambda>b. report (translated eg m b) b)
                      (full_batches n (pending s @ map strip ls))),
          count = count s + length ls\<rparr>"
  using assms(2)
proof (induction ls arbitrary: s)
  case Nil
  then show ?case by (simp add: full_batches_short remainder_short)
next
  case (Cons line ls)
  let ?b = "pending s @ [strip line]"
  show ?case
  proof (cases "int (length ?b) = batch_size a")
    case True
    then have n: "0 < n" "length ?b = n" using assms(1) by auto
    let ?s1 = "\<lparr>pending = [], tgt_text = tgt_text s @ translated eg m ?b,
                prints = prints s @ report (translated eg m ?b) ?b, count = count s + 1\<rparr>"
    have body: "loop_body a eg m line s = Inr ?s1" by (rule loop_body_full [OF True])
    have inv: "n = 0 \<or> length (pending ?s1) < n" using n by simp
    have split: "pending s @ map strip (line # ls) = ?b @ map strip ls" by simp
    show ?thesis
      unfolding split full_batches_append [OF n] remainder_append [OF n]
      using Cons.IH [OF inv] body by simp
  next
    case False
    let ?s1 = "s\<lparr>pending := ?b, count := count s + 1\<rparr>"
    have body: "loop_body a eg m line s = Inr ?s1" by (rule loop_body_not_full [OF False])
    have "length ?b \<noteq> n \<or> n = 0" using False assms(1) by auto
    then have inv: "n = 0 \<or> length (pending ?s1) < n" using Cons.prems by auto
    show ?thesis
      using Cons.IH [OF inv] body by simp
  qed
qed

lemma last_batch_result:
  "last_batch eg m s =
     Inr (s\<lparr>tgt_text := tgt_text s @ (if pending s = [] then [] else translated eg m (pending s))\<rparr>)"
  by (cases "pending s = []") (simp_all add: last_batch_def translate_batch_nonempty)

text \<open>
  What \<^verbatim>\<open>main\<close> leaves behind when the configuration is accepted and the input file exists.
\<close>

lemma main_result:
  assumes "0 < beam_size a" and "files w (srctext a) = Some lines"
  shows "main a (m # ms) forward w =
     Inr \<lparr>files = (files w)(tgtout a \<mapsto>
             map (\<lambda>line. line @ [CHR 0x0A])
               (run_batches (translated (forward (generator_config a m)) m)
                  (nat (batch_size a)) (map strip lines))),
          stdout = stdout w @
             concat (map (\<lambda>b. report (translated (forward (generator_config a m)) m b) b)
                       (full_batches (nat (batch_size a)) (map strip lines))),
          logged = logged w @ [''Translating: '' @ srctext a]\<rparr>"
proof -
  let ?g = "generator_config a m"
  have g: "EnsembleBeamSearchSequenceGenerator ?g = Inr ?g"
    using assms(1) by (simp add: EnsembleBeamSearchSequenceGenerator_def generator_config_def)
  have lp: "loop a (forward ?g) m lines \<lparr>pending = [], tgt_text = [], prints = [], count = 0\<rparr>
      = Inr \<lparr>pending = remainder (nat (batch_size a)) (map strip lines),
          tgt_text = concat (map (translated (forward ?g) m)
                       (full_batches (nat (batch_size a)) (map strip lines))),
          prints = concat (map (\<lambda>b. report (translated (forward ?g) m b) b)
                      (full_batches (nat (batch_size a)) (map strip lines))),
          count = length lines\<rparr>"
  proof -
    have inv: "nat (batch_size a) = 0 \<or>
        length (pending \<lparr>pending = [], tgt_text = [], prints = [], count = 0\<rparr>) < nat (batch_size a)"
      by auto
    show ?thesis
      using loop_batches [OF refl inv, of "forward ?g" m lines] by simp
  qed
  show ?thesis
    by (simp add: main_def g assms(2) lp last_batch_result run_batches_def)
qed

text \<open>
  With translations that keep the number of sentences of every batch, the translations of
  the whole file line up with its sentences.
\<close>

lemma length_run_batches:
  assumes "\<forall>b. b \<noteq> [] \<longrightarrow> length (T b) = length b"
  shows "length (run_batches T n xs) = length xs"
proof (induction n xs rule: full_batches.induct)
  case (1 n xs)
  show ?case
  proof (cases "n = 0 \<or> length xs < n")
    case True
    then show ?thesis
      using assms by (simp add: run_batches_def full_batches_short remainder_short)
  next
    case False
    then have n: "0 < n" "length (take n xs) = n" by auto
    have fb: "full_batches n xs = take n xs # full_batches n (drop n xs)"
      using full_batches_append [OF n, of "drop n xs"] by simp
    have rm: "remainder n xs = remainder n (drop n xs)"
      using remainder_append [OF n, of "drop n xs"] by simp
    have ne: "take n xs \<noteq> []" using n by auto
    have "run_batches T n xs = T (take n xs) @ run_batches T n (drop n xs)"
      by (simp add: run_batches_def fb rm)
    then show ?thesis
      using "1.IH" [OF False] assms ne n False by simp
  qed
qed

lemma nth_run_batches:
  assumes "\<forall>b. b \<noteq> [] \<longrightarrow> length (T b) = length b"
  shows "i < length xs \<Longrightarrow>
         run_batches T n xs ! i = T (batch_of n xs i) ! position_in_batch n i"
proof (induction n xs arbitrary: i rule: full_batches.induct)
  case (1 n xs)
  show ?case
  proof (cases "n = 0 \<or> length xs < n")
    case True
    then have "run_batches T n xs = T xs"
      using "1.prems" by (auto simp: run_batches_def full_batches_short remainder_short)
    moreover have "batch_of n xs i = xs" "position_in_batch n i = i"
      using True "1.prems" by (auto simp: batch_of_def position_in_batch_def)
    ultimately show ?thesis by simp
  next
    case False
    then have n: "0 < n" "length (take n xs) = n" by auto
    have fb: "full_batches n xs = take n xs # full_batches n (drop n xs)"
      using full_batches_append [OF n, of "drop n xs"] by simp
    have rm: "remainder n xs = remainder n (drop n xs)"
      using remainder_append [OF n, of "drop n xs"] by simp
    have ne: "take n xs \<noteq> []" using n by auto
    have lenT: "length (T (take n xs)) = n" using assms ne n by simp
    have rb: "run_batches T n xs = T (take n xs) @ run_batches T n (drop n xs)"
      by (simp add: run_batches_def fb rm)
    show ?thesis
    proof (cases "i < n")
      case True
      then have "batch_of n xs i = take n xs" "position_in_batch n i = i"
        using n by (simp_all add: batch_of_def position_in_batch_def)
      then show ?thesis using True lenT by (simp add: rb nth_append)
    next
      case ge: False
      then have i: "i - n < length (drop n xs)" using "1.prems" by auto
      have d: "(i - n) div n * n + n = i div n * n"
      proof -
        have "i div n = Suc ((i - n) div n)"
          using ge n(1) by (simp add: le_div_geq)
        then show ?thesis by simp
      qed
      have m: "(i - n) mod n = i mod n"
        using ge by (simp add: le_mod_geq)
      have "batch_of n (drop n xs) (i - n) = batch_of n xs i"
        using n(1) d by (simp add: batch_of_def)
      moreover have "position_in_batch n (i - n) = position_in_batch n i"
        using m by (simp add: position_in_batch_def)
      ultimately show ?thesis
        using "1.IH" [OF False i] ge lenT by (simp add: rb nth_append)
    qed
  qed
qed

lemma nth_batch_of:
  assumes "i < length xs"
  shows "batch_of n xs i ! position_in_batch n i = xs ! i"
proof (cases "n = 0")
  case True
  then show ?thesis by (simp add: batch_of_def position_in_batch_def)
next
  case False
  then have "i mod n < n" by simp
  moreover have "i div n * n + i mod n = i" by simp
  moreover have "i div n * n \<le> length xs"
    using assms by (metis div_mult_mod_eq le_add1 le_trans less_or_eq_imp_le)
  ultimately show ?thesis
    using False assms by (simp add: batch_of_def position_in_batch_def)
qed

text \<open>
  Claim C4. Let the generator return one output row per input row, as its contract in the
  specification says, let the configuration be accepted and let the input file exist. Then
  \<^verbatim>\<open>main\<close> returns normally, and the output file holds exactly one written line per input
  line. Line \<open>i\<close> of the output is the translation, ended by a newline character, that the
  batch holding sentence \<open>i\<close> returned at the position of sentence \<open>i\<close>: the order of the
  input is kept. Sentence \<open>i\<close> is line \<open>i\<close> of the input, stripped.
\<close>

theorem main_one_line_per_input_line:
  assumes "\<forall>g src src_mask. length (forward g src src_mask) = length src"
      and "0 < beam_size a"
      and "files w (srctext a) = Some lines"
  shows "\<exists>w' out.
      main a (m # ms) forward w = Inr w' \<and>
      files w' (tgtout a) = Some out \<and>
      length out = length lines \<and>
      (\<forall>i < length lines.
          batch_of (nat (batch_size a)) (map strip lines) i
            ! position_in_batch (nat (batch_size a)) i = strip (lines ! i) \<and>
          out ! i =
            translated (forward (generator_config a m)) m
              (batch_of (nat (batch_size a)) (map strip lines) i)
            ! position_in_batch (nat (batch_size a)) i @ [CHR 0x0A])"
proof -
  let ?T = "translated (forward (generator_config a m)) m"
  let ?n = "nat (batch_size a)"
  let ?xs = "map strip lines"
  let ?out = "map (\<lambda>line. line @ [CHR 0x0A]) (run_batches ?T ?n ?xs)"
  have T: "\<forall>b. b \<noteq> [] \<longrightarrow> length (?T b) = length b"
    using assms(1) by (simp add: length_translated)
  have len: "length (run_batches ?T ?n ?xs) = length lines"
    using length_run_batches [OF T, of ?n ?xs] by simp
  have run: "main a (m # ms) forward w =
     Inr \<lparr>files = (files w)(tgtout a \<mapsto> ?out),
          stdout = stdout w @
             concat (map (\<lambda>b. report (?T b) b) (full_batches ?n ?xs)),
          logged = logged w @ [''Translating: '' @ srctext a]\<rparr>"
    by (rule main_result [OF assms(2,3)])
  have rows: "\<forall>i < length lines.
          batch_of ?n ?xs i ! position_in_batch ?n i = strip (lines ! i) \<and>
          ?out ! i = ?T (batch_of ?n ?xs i) ! position_in_batch ?n i @ [CHR 0x0A]"
  proof (intro allI impI)
    fix i assume i: "i < length lines"
    then have ix: "i < length ?xs" by simp
    have "batch_of ?n ?xs i ! position_in_batch ?n i = strip (lines ! i)"
      using nth_batch_of [OF ix, of ?n] i by simp
    moreover have "?out ! i = ?T (batch_of ?n ?xs i) ! position_in_batch ?n i @ [CHR 0x0A]"
      using nth_run_batches [OF T ix, of ?n] i len by simp
    ultimately show "batch_of ?n ?xs i ! position_in_batch ?n i = strip (lines ! i) \<and>
          ?out ! i = ?T (batch_of ?n ?xs i) ! position_in_batch ?n i @ [CHR 0x0A]"
      by blast
  qed
  let ?w' = "\<lparr>files = (files w)(tgtout a \<mapsto> ?out),
          stdout = stdout w @
             concat (map (\<lambda>b. report (?T b) b) (full_batches ?n ?xs)),
          logged = logged w @ [''Translating: '' @ srctext a]\<rparr>"
  have out: "files ?w' (tgtout a) = Some ?out" by simp
  have lo: "length ?out = length lines" using len by simp
  show ?thesis
    using run out lo rows by blast
qed

text \<open>The definitions to unfold when the script is run on the examples.\<close>

lemmas toy_eval =
  main_def loop_body_def last_batch_def translate_batch_def generator_config_def
  EnsembleBeamSearchSequenceGenerator_def input_preprocess_def wrap_ids_def sentence_ids_def
  py_max_def assign_prefix_def nmt_postprocess_def filter_predicted_ids_def strip_def
  is_space_def toy_model_def toy_tokenizer_def toy_args_def toy_world_def echo_forward_def
  dropping_forward_def used_world_def enumerate_eq_zip upt_rec Let_def

theorem main_one_line_per_input_line_witness:
  "(\<forall>g src src_mask. length (echo_forward g src src_mask) = length src) \<and>
   0 < beam_size toy_args \<and>
   files toy_world (srctext toy_args) = Some [''ab'' @ [CHR 0x0A], '' b'' @ [CHR 0x0A], ''a''] \<and>
   (case main toy_args [toy_model] echo_forward toy_world of
      Inl e \<Rightarrow> None
    | Inr w' \<Rightarrow> files w' (tgtout toy_args))
     = Some [''?ab?'' @ [CHR 0x0A], ''?b??'' @ [CHR 0x0A], ''?a?'' @ [CHR 0x0A]]"
  using main_one_line_per_input_line [of echo_forward toy_args toy_world
      "[''ab'' @ [CHR 0x0A], '' b'' @ [CHR 0x0A], ''a'']" toy_model "[]"]
  by (simp add: toy_eval)

text \<open>
  Claim C5, as the code has it. The reading loop never fails. For every full batch whose
  number of translations differs from its number of sentences it prints the two numbers, the
  translations and the sentences to standard output, and it appends the translations of
  every full batch, matching or not, to the output. A mismatch is not fatal: with an accepted
  configuration and an existing input file \<^verbatim>\<open>main\<close> returns normally, whatever the generator
  returns.
\<close>

theorem loop_reports_mismatch_and_goes_on:
  "(\<exists>s'. loop a ensemble_generator m lines
             \<lparr>pending = [], tgt_text = [], prints = [], count = 0\<rparr> = Inr s' \<and>
         tgt_text s' =
           concat (map (translated ensemble_generator m)
                     (full_batches (nat (batch_size a)) (map strip lines))) \<and>
         prints s' =
           concat (map (\<lambda>b. if length (translated ensemble_generator m b) \<noteq> length b
                            then [PInt (length (translated ensemble_generator m b)),
                                  PInt (length b),
                                  PList (translated ensemble_generator m b), PList b]
                            else [])
                     (full_batches (nat (batch_size a)) (map strip lines)))) \<and>
   (0 < beam_size a \<longrightarrow> files w (srctext a) = Some lines \<longrightarrow>
      (\<exists>w'. main a (m # ms) forward w = Inr w'))"
proof -
  have inv: "nat (batch_size a) = 0 \<or>
      length (pending \<lparr>pending = [], tgt_text = [], prints = [], count = 0\<rparr>) < nat (batch_size a)"
    by auto
  have "report (translated ensemble_generator m b) b =
          (if length (translated ensemble_generator m b) \<noteq> length b
           then [PInt (length (translated ensemble_generator m b)), PInt (length b),
                 PList (translated ensemble_generator m b), PList b]
           else [])" for b
    by (simp add: report_def)
  then have "\<exists>s'. loop a ensemble_generator m lines
             \<lparr>pending = [], tgt_text = [], prints = [], count = 0\<rparr> = Inr s' \<and>
         tgt_text s' =
           concat (map (translated ensemble_generator m)
                     (full_batches (nat (batch_size a)) (map strip lines))) \<and>
         prints s' =
           concat (map (\<lambda>b. if length (translated ensemble_generator m b) \<noteq> length b
                            then [PInt (length (translated ensemble_generator m b)),
                                  PInt (length b),
                                  PList (translated ensemble_generator m b), PList b]
                            else [])
                     (full_batches (nat (batch_size a)) (map strip lines)))"
    using loop_batches [OF refl inv, of ensemble_generator m lines] by simp
  moreover have "\<exists>w'. main a (m # ms) forward w = Inr w'"
    if "0 < beam_size a" and "files w (srctext a) = Some lines"
    using main_result [OF that] by blast
  ultimately show ?thesis by blast
qed

theorem loop_reports_mismatch_and_goes_on_witness:
  "0 < beam_size toy_args \<and>
   files toy_world (srctext toy_args) = Some [''ab'' @ [CHR 0x0A], '' b'' @ [CHR 0x0A], ''a''] \<and>
   full_batches (nat (batch_size toy_args)) (map strip [''ab'' @ [CHR 0x0A], '' b'' @ [CHR 0x0A], ''a''])
     = [[''ab'', ''b'']] \<and>
   translated (dropping_forward (generator_config toy_args toy_model)) toy_model [''ab'', ''b'']
     = [''?b??''] \<and>
   loop toy_args (dropping_forward (generator_config toy_args toy_model)) toy_model
       [''ab'' @ [CHR 0x0A], '' b'' @ [CHR 0x0A], ''a'']
       \<lparr>pending = [], tgt_text = [], prints = [], count = 0\<rparr>
     = Inr \<lparr>pending = [''a''], tgt_text = [''?b??''],
            prints = [PInt 1, PInt 2, PList [''?b??''], PList [''ab'', ''b'']], count = 3\<rparr>"
  using loop_reports_mismatch_and_goes_on [of toy_args
      "dropping_forward (generator_config toy_args toy_model)" toy_model
      "[''ab'' @ [CHR 0x0A], '' b'' @ [CHR 0x0A], ''a'']" toy_world "[]" dropping_forward]
  by (simp add: toy_eval translated_def full_batches.simps)

text \<open>
  Claim C5 as stated fails. With a generator that loses a row of every batch, the first
  batch of two sentences gets one translation and the last batch of one sentence gets none.
  The run does not fail; the single translation is written to the output file; the mismatch of
  the full batch is printed, and the mismatch of the last batch leaves no trace.
\<close>

theorem mismatch_is_not_fatal:
  "(case main toy_args [toy_model] dropping_forward toy_world of
      Inl e \<Rightarrow> None
    | Inr w' \<Rightarrow> Some (files w' ''out.txt'', stdout w'))
     = Some (Some [''?b??'' @ [CHR 0x0A]],
             [PInt 1, PInt 2, PList [''?b??''], PList [''ab'', ''b'']]) \<and>
   translated (dropping_forward (generator_config toy_args toy_model)) toy_model [''ab'', ''b'']
     = [''?b??''] \<and>
   translated (dropping_forward (generator_config toy_args toy_model)) toy_model [''a''] = []"
  by (simp add: toy_eval translated_def)

text \<open>
  Claim C8. The constructor of the generator rejects a beam size or a maximum sequence
  length that is not positive. \<^verbatim>\<open>main\<close> calls it before the input file is opened: with a
  beam size that is not positive, \<^verbatim>\<open>main\<close> fails with the configuration error for every
  world and every generator function, so no sentence is read or decoded. The maximum sequence
  length that \<^verbatim>\<open>main\<close> passes is always 512.
\<close>

theorem configuration_rejected_before_decoding:
  "(gen_beam_size cfg \<le> 0 \<or> gen_max_sequence_length cfg \<le> 0 \<longrightarrow>
      EnsembleBeamSearchSequenceGenerator cfg = Inl ConfigurationError) \<and>
   (beam_size a \<le> 0 \<longrightarrow> main a (m # ms) forward w = Inl ConfigurationError) \<and>
   gen_max_sequence_length (generator_config a m) = 512"
  by (simp add: main_def EnsembleBeamSearchSequenceGenerator_def generator_config_def)

theorem configuration_rejected_before_decoding_witness:
  "gen_beam_size (generator_config (toy_args\<lparr>beam_size := 0\<rparr>) toy_model) \<le> 0 \<and>
   EnsembleBeamSearchSequenceGenerator (generator_config (toy_args\<lparr>beam_size := 0\<rparr>) toy_model)
     = Inl ConfigurationError \<and>
   beam_size (toy_args\<lparr>beam_size := 0\<rparr>) \<le> 0 \<and>
   main (toy_args\<lparr>beam_size := 0\<rparr>) [toy_model] echo_forward toy_world = Inl ConfigurationError \<and>
   main (toy_args\<lparr>beam_size := 0, srctext := ''missing.txt''\<rparr>) [toy_model] echo_forward toy_world
     = Inl ConfigurationError"
  using configuration_rejected_before_decoding
      [of "generator_config (toy_args\<lparr>beam_size := 0\<rparr>) toy_model"
          "toy_args\<lparr>beam_size := 0\<rparr>" toy_model "[]" echo_forward toy_world]
    configuration_rejected_before_decoding
      [of "generator_config (toy_args\<lparr>beam_size := 0\<rparr>) toy_model"
          "toy_args\<lparr>beam_size := 0, srctext := ''missing.txt''\<rparr>" toy_model "[]"
          echo_forward toy_world]
  by (simp add: generator_config_def toy_args_def)

text \<open>
  Claim C9. With the models, the tokenizers and the generator as fixed functions, two runs
  of \<^verbatim>\<open>main\<close> with the same arguments, started in any two worlds that hold the same input
  file, end alike: both fail with the same error, or both return, with the same content of the
  output file and the same printed output added to what was there. Nothing else in the world,
  the former content of the output file included, has an influence. In particular, when the
  output file is not the input file, a second run in the world that the first run has left
  returns as well and leaves every file as the first run left it.
\<close>

theorem main_deterministic:
  "(files w1 (srctext a) = files w2 (srctext a) \<longrightarrow>
      (\<exists>e. main a ms forward w1 = Inl e \<and> main a ms forward w2 = Inl e) \<or>
      (\<exists>w1' w2' p. main a ms forward w1 = Inr w1' \<and> main a ms forward w2 = Inr w2' \<and>
          files w1' (tgtout a) = files w2' (tgtout a) \<and>
          stdout w1' = stdout w1 @ p \<and> stdout w2' = stdout w2 @ p)) \<and>
   (srctext a \<noteq> tgtout a \<longrightarrow> main a ms forward w1 = Inr w1' \<longrightarrow>
      (\<exists>w1''. main a ms forward w1' = Inr w1'' \<and> files w1'' = files w1'))"
  by (auto simp: main_def split: list.splits sum.splits option.splits)

theorem main_deterministic_witness:
  "files toy_world (srctext toy_args) = files used_world (srctext toy_args) \<and>
   (case main toy_args [toy_model] echo_forward toy_world of
      Inl e \<Rightarrow> None | Inr w' \<Rightarrow> files w' (tgtout toy_args))
     = Some [''?ab?'' @ [CHR 0x0A], ''?b??'' @ [CHR 0x0A], ''?a?'' @ [CHR 0x0A]] \<and>
   (case main toy_args [toy_model] echo_forward used_world of
      Inl e \<Rightarrow> None | Inr w' \<Rightarrow> files w' (tgtout toy_args))
     = Some [''?ab?'' @ [CHR 0x0A], ''?b??'' @ [CHR 0x0A], ''?a?'' @ [CHR 0x0A]] \<and>
   srctext toy_args \<noteq> tgtout toy_args \<and>
   main toy_args [toy_model] echo_forward toy_world = Inr after_first_run \<and>
   (case main toy_args [toy_model] echo_forward after_first_run of
      Inl e \<Rightarrow> None | Inr w' \<Rightarrow> Some (files w' ''in.txt'', files w' ''out.txt''))
     = Some (files after_first_run ''in.txt'', files after_first_run ''out.txt'')"
  using main_deterministic [of toy_world toy_args used_world "[toy_model]" echo_forward
      after_first_run]
  by (simp add: toy_eval after_first_run_def)

end
